theory Spec2Isabelle
  imports Complex_Main
begin

section \<open>Arctic navigation quicklook: data model\<close>

text \<open>
  The script \<^verbatim>\<open>scripts/interactive_quicklook.py\<close> loads two array datasets with xarray,
  slices them with label-based selection and renders them. The embedding keeps the
  script's functions and names; the xarray/pandas operations the script calls are written
  out as list functions:

  \<^item> a timestamp (\<^verbatim>\<open>datetime64[ns]\<close>) is an \<open>int\<close>, nanoseconds since the epoch;
  \<^item> a calendar day (the string \<^verbatim>\<open>strftime("%Y-%m-%d")\<close>) is an \<open>int\<close>, days since the
    epoch: the string is an injective, order-preserving rendering of that number;
  \<^item> a floating-point value is a \<open>real option\<close>, \<open>None\<close> standing for NaN; rounding is
    not modelled;
  \<^item> a dataset indexed by \<^verbatim>\<open>time\<close> is the list of its rows in storage order.
\<close>

type_synonym time = int
type_synonym day = int
type_synonym val = "real option"
type_synonym path = string

datatype error =
    IndexError
  | FileNotFoundError
  | NotADataset
  | RuntimeError_NoDays
  | ValueError_EmptyReduction
  | KeyError_NoTimeIndex

text \<open>One row of the navigation file, before the hour-of-day coordinate is attached.\<close>

record raw_sample =
  raw_time :: time
  raw_altitude :: val
  raw_pitch :: val
  raw_roll :: val
  raw_t_kt19 :: val
  raw_latitude :: val
  raw_longitude :: val

text \<open>One row of the loaded navigation dataset \<^verbatim>\<open>DS\<close>.\<close>

record sample =
  time :: time
  hour_of_day :: val
  altitude :: val
  pitch :: val
  roll :: val
  t_kt19 :: val
  latitude :: val
  longitude :: val

text \<open>
  The sea-ice file: the variable \<^verbatim>\<open>sic\<close>, one grid of concentration cells per time step
  (the grid flattened to a list). The positions \<^verbatim>\<open>lat\<close> and \<^verbatim>\<open>lon\<close> of the grid, which the
  file holds as coordinates or as further variables, are not part of the model.
\<close>

record sic_frame =
  stime :: time
  cells :: "val list"

record raw_sic =
  raw_frames :: "sic_frame list"

text \<open>
  The loaded sea-ice dataset \<^verbatim>\<open>DS_SIC\<close>. \<^verbatim>\<open>squeeze()\<close> drops every dimension of length
  one; \<open>time_dim\<close> records whether the \<^verbatim>\<open>time\<close> dimension survived it.
\<close>

record sic_ds =
  frames :: "sic_frame list"
  time_dim :: bool

datatype disk_file = NavFile "raw_sample list" | SicFile raw_sic | OtherFile

type_synonym filesystem = "path \<rightharpoonup> disk_file"

section \<open>Configuration and path resolution\<close>

definition CANDIDATE_DATASET_PATHS :: "path list" where
  "CANDIDATE_DATASET_PATHS =
     [''data/observations/processed/bbr_BACSAM2_p6_processed.nc'',
      ''../../../data/observations/processed/bbr_BACSAM2_p6_processed.nc'']"

definition CANDIDATE_SIC_PATHS :: "path list" where
  "CANDIDATE_SIC_PATHS =
     [''data/observations/processed/satellite_unified/sic_modis-aqua_amsr2-gcom-w1_merged_nh_1000m_APRIL.nc'',
      ''../../../data/observations/processed/satellite_unified/sic_modis-aqua_amsr2-gcom-w1_merged_nh_1000m_APRIL.nc'']"

text \<open>\<^verbatim>\<open>p.exists()\<close> on a file system.\<close>

definition path_exists :: "filesystem \<Rightarrow> path \<Rightarrow> bool" where
  "path_exists fs p = (fs p \<noteq> None)"

text \<open>The \<^verbatim>\<open>for p in candidates: if p.exists(): return str(p)\<close> loop of \<^verbatim>\<open>_resolve_path\<close>.\<close>

fun first_existing :: "filesystem \<Rightarrow> path list \<Rightarrow> path option" where
  "first_existing fs [] = None"
| "first_existing fs (p # ps) = (if path_exists fs p then Some p else first_existing fs ps)"

text \<open>
  \<^verbatim>\<open>_resolve_path\<close>: the first candidate that exists, else \<^verbatim>\<open>candidates[0]\<close>, which raises
  \<^verbatim>\<open>IndexError\<close> on an empty list.
\<close>

definition resolve_path :: "filesystem \<Rightarrow> path list \<Rightarrow> error + path" where
  "resolve_path fs candidates =
     (case first_existing fs candidates of
        Some p \<Rightarrow> Inr p
      | None \<Rightarrow> (case candidates of [] \<Rightarrow> Inl IndexError | p # _ \<Rightarrow> Inr p))"

section \<open>Data loading\<close>

text \<open>\<^verbatim>\<open>xr.open_dataset\<close>: a missing file raises, a file of the wrong kind raises.\<close>

definition open_nav :: "filesystem \<Rightarrow> path \<Rightarrow> error + raw_sample list" where
  "open_nav fs p =
     (case fs p of
        None \<Rightarrow> Inl FileNotFoundError
      | Some (NavFile rows) \<Rightarrow> Inr rows
      | Some _ \<Rightarrow> Inl NotADataset)"

definition open_sic :: "filesystem \<Rightarrow> path \<Rightarrow> error + raw_sic" where
  "open_sic fs p =
     (case fs p of
        None \<Rightarrow> Inl FileNotFoundError
      | Some (SicFile g) \<Rightarrow> Inr g
      | Some _ \<Rightarrow> Inl NotADataset)"

text \<open>
  \<^verbatim>\<open>ds_sic.where(ds_sic.sic <= 100)\<close> on one cell: the cell is kept where the comparison is
  true and becomes NaN elsewhere. A comparison with NaN is false.
\<close>

definition sic_le_100 :: "val \<Rightarrow> bool" where
  "sic_le_100 c = (case c of None \<Rightarrow> False | Some v \<Rightarrow> v \<le> 100)"

definition where_le_100 :: "val \<Rightarrow> val" where
  "where_le_100 c = (if sic_le_100 c then c else None)"

definition mask_frame :: "sic_frame \<Rightarrow> sic_frame" where
  "mask_frame f = f\<lparr>cells := map where_le_100 (cells f)\<rparr>"

definition NS_PER_SECOND :: int where
  "NS_PER_SECOND = 1000000000"

definition NS_PER_DAY :: int where
  "NS_PER_DAY = 86400 * NS_PER_SECOND"

text \<open>
  \<^verbatim>\<open>(hour * 3600 + minute * 60 + second) / 3600\<close> of a timestamp: the whole seconds since
  midnight, in hours.
\<close>

definition hod :: "time \<Rightarrow> real" where
  "hod t = real_of_int ((t div NS_PER_SECOND) mod 86400) / 3600"

definition with_hour_of_day :: "raw_sample \<Rightarrow> sample" where
  "with_hour_of_day r =
     \<lparr>time = raw_time r, hour_of_day = Some (hod (raw_time r)),
      altitude = raw_altitude r, pitch = raw_pitch r, roll = raw_roll r,
      t_kt19 = raw_t_kt19 r, latitude = raw_latitude r, longitude = raw_longitude r\<rparr>"

text \<open>
  The sea-ice half of \<^verbatim>\<open>load_data\<close>, for the variable \<^verbatim>\<open>sic\<close>: \<^verbatim>\<open>squeeze()\<close>, then the
  \<^verbatim>\<open>where\<close> mask.
\<close>

definition prepare_sic :: "raw_sic \<Rightarrow> sic_ds" where
  "prepare_sic g =
     \<lparr>frames = map mask_frame (raw_frames g), time_dim = (length (raw_frames g) \<noteq> 1)\<rparr>"

text \<open>
  \<^verbatim>\<open>load_data\<close>, with the module-level path resolution that feeds it. The navigation file
  is opened first, so its error wins.
\<close>

definition load_data :: "filesystem \<Rightarrow> error + (sample list \<times> sic_ds)" where
  "load_data fs =
     (case resolve_path fs CANDIDATE_DATASET_PATHS of
        Inl e \<Rightarrow> Inl e
      | Inr DATASET_PATH \<Rightarrow>
     (case resolve_path fs CANDIDATE_SIC_PATHS of
        Inl e \<Rightarrow> Inl e
      | Inr SIC_PATH \<Rightarrow>
     (case open_nav fs DATASET_PATH of
        Inl e \<Rightarrow> Inl e
      | Inr ds \<Rightarrow>
     (case open_sic fs SIC_PATH of
        Inl e \<Rightarrow> Inl e
      | Inr ds_sic \<Rightarrow> Inr (map with_hour_of_day ds, prepare_sic ds_sic)))))"

text \<open>The values of a column that are not NaN.\<close>

definition present :: "val list \<Rightarrow> real list" where
  "present vs = concat (map (\<lambda>c. case c of None \<Rightarrow> [] | Some v \<Rightarrow> [v]) vs)"

text \<open>Every concentration value present in the file, and in the loaded dataset.\<close>

definition raw_sic_values :: "raw_sic \<Rightarrow> real list" where
  "raw_sic_values g = concat (map (\<lambda>f. present (cells f)) (raw_frames g))"

definition sic_values :: "sic_ds \<Rightarrow> real list" where
  "sic_values d = concat (map (\<lambda>f. present (cells f)) (frames d))"

text \<open>The range property of the loaded concentration field: all present values in 0..100.\<close>

definition sic_in_0_100 :: "sic_ds \<Rightarrow> bool" where
  "sic_in_0_100 d = list_all (\<lambda>v. 0 \<le> v \<and> v \<le> 100) (sic_values d)"

section \<open>Days and label-based selection\<close>

text \<open>\<^verbatim>\<open>strftime("%Y-%m-%d")\<close>: the calendar day of a timestamp.\<close>

definition day_of :: "time \<Rightarrow> day" where
  "day_of t = t div NS_PER_DAY"

text \<open>
  \<^verbatim>\<open>np.unique(...).tolist()\<close>: the distinct days, ascending (the day strings sort as the
  days do).
\<close>

definition DAYS :: "sample list \<Rightarrow> day list" where
  "DAYS ds = sort (remdups (map (\<lambda>r. day_of (time r)) ds))"

text \<open>
  \<^verbatim>\<open>.sel(time=slice(lo, hi))\<close> on a monotonic time index: pandas finds the two positions
  by \<^verbatim>\<open>searchsorted\<close> (left of \<open>lo\<close>, right of \<open>hi\<close>) and returns the rows between them. On a
  sorted index the binary search finds what the linear scan below finds.
\<close>

definition sel_time :: "('a \<Rightarrow> time) \<Rightarrow> time \<Rightarrow> time \<Rightarrow> 'a list \<Rightarrow> 'a list" where
  "sel_time tm lo hi rows = takeWhile (\<lambda>r. tm r \<le> hi) (dropWhile (\<lambda>r. tm r < lo) rows)"

text \<open>
  The bounds of the string slice \<^verbatim>\<open>slice(f"{day}T00:00", f"{day}T23:59:59")\<close>. A string
  bound is resolved at the string's own resolution: the left bound is the first instant
  of minute 00:00, the right bound the last nanosecond of second 23:59:59.
\<close>

definition day_start :: "day \<Rightarrow> time" where
  "day_start d = d * NS_PER_DAY"

definition day_end :: "day \<Rightarrow> time" where
  "day_end d = d * NS_PER_DAY + (23 * 3600 + 59 * 60 + 59) * NS_PER_SECOND + (NS_PER_SECOND - 1)"

definition sel_day :: "sample list \<Rightarrow> day \<Rightarrow> sample list" where
  "sel_day ds d = sel_time time (day_start d) (day_end d) ds"

section \<open>Coarsening\<close>

text \<open>
  \<^verbatim>\<open>.coarsen(time=k, boundary="trim")\<close>: consecutive windows of \<open>k\<close> rows from the start;
  the rows left over at the end, fewer than \<open>k\<close>, are dropped.
\<close>

function blocks :: "nat \<Rightarrow> 'a list \<Rightarrow> 'a list list" where
  "blocks k xs = (if k = 0 \<or> length xs < k then [] else take k xs # blocks k (drop k xs))"
  by pat_completeness auto
termination
  by (relation "measure (\<lambda>(k, xs). length xs)") auto

declare blocks.simps [simp del]

text \<open>\<^verbatim>\<open>.mean()\<close> of a float column skips NaN; a window of NaN only has mean NaN.\<close>

definition nanmean :: "val list \<Rightarrow> val" where
  "nanmean vs =
     (let xs = present vs
      in if xs = [] then None else Some (sum_list xs / real (length xs)))"

text \<open>
  The mean of the \<^verbatim>\<open>time\<close> coordinate over a window. The library computes it in floating
  point, from the offsets of the timestamps to an origin that it takes from the whole
  (trimmed) coordinate, and how it rounds depends on its version. The mean is therefore a
  parameter of the model: a function of the whole coordinate and of the window.
\<close>

type_synonym datetime_mean = "time list \<Rightarrow> time list \<Rightarrow> time"

text \<open>
  What every such mean does: of two windows of the same length, the one whose timestamps
  all come first has the mean that comes first (conversion, summation in a fixed order,
  division and truncation are all monotonic).
\<close>

definition monotone_mean :: "datetime_mean \<Rightarrow> bool" where
  "monotone_mean tm =
     (\<forall>whole ts us. ts \<noteq> [] \<and> length ts = length us \<and> (\<forall>x\<in>set ts. \<forall>y\<in>set us. x \<le> y)
        \<longrightarrow> tm whole ts \<le> tm whole us)"

text \<open>One such mean: the exact mean, truncated to whole nanoseconds.\<close>

definition time_mean :: datetime_mean where
  "time_mean whole ts = sum_list ts div int (length ts)"

definition block_mean :: "datetime_mean \<Rightarrow> time list \<Rightarrow> sample list \<Rightarrow> sample" where
  "block_mean tm whole b =
     \<lparr>time = tm whole (map time b), hour_of_day = nanmean (map hour_of_day b),
      altitude = nanmean (map altitude b), pitch = nanmean (map pitch b),
      roll = nanmean (map roll b), t_kt19 = nanmean (map t_kt19 b),
      latitude = nanmean (map latitude b), longitude = nanmean (map longitude b)\<rparr>"

text \<open>
  \<^verbatim>\<open>.coarsen(time=k, boundary="trim").mean()\<close>. The mean of the time coordinate starts with
  the minimum of the whole trimmed coordinate; when no window is full that coordinate is
  empty and the reduction raises.
\<close>

definition coarsen_mean :: "datetime_mean \<Rightarrow> nat \<Rightarrow> sample list \<Rightarrow> error + sample list" where
  "coarsen_mean tm k ds =
     (let ws = blocks k ds; whole = map time (concat ws)
      in if ws = [] then Inl ValueError_EmptyReduction
         else Inr (map (block_mean tm whole) ws))"

section \<open>Helper functions of the script\<close>

text \<open>\<^verbatim>\<open>_prep_day\<close>. The test \<^verbatim>\<open>coarsen and coarsen > 1\<close> is false for 0 and for 1.\<close>

definition prep_day :: "datetime_mean \<Rightarrow> sample list \<Rightarrow> day \<Rightarrow> int \<Rightarrow> error + sample list" where
  "prep_day tm ds d coarsen =
     (let ds_day = sel_day ds d
      in if coarsen \<noteq> 0 \<and> coarsen > 1 then coarsen_mean tm (nat coarsen) ds_day
         else Inr ds_day)"

text \<open>
  \<^verbatim>\<open>.min()\<close> and \<^verbatim>\<open>.max()\<close> of the \<^verbatim>\<open>time\<close> coordinate: a reduction over the array, which
  raises on an empty one.
\<close>

definition time_min :: "sample list \<Rightarrow> error + time" where
  "time_min rows =
     (case rows of [] \<Rightarrow> Inl ValueError_EmptyReduction | r # rs \<Rightarrow> Inr (fold (\<lambda>x m. min (time x) m) rs (time r)))"

definition time_max :: "sample list \<Rightarrow> error + time" where
  "time_max rows =
     (case rows of [] \<Rightarrow> Inl ValueError_EmptyReduction | r # rs \<Rightarrow> Inr (fold (\<lambda>x m. max (time x) m) rs (time r)))"

text \<open>
  The value of the time-range slider as \<^verbatim>\<open>view\<close> receives it: \<^verbatim>\<open>None\<close>, or a pair whose
  components may be \<^verbatim>\<open>None\<close>.
\<close>

type_synonym t_range = "(time option \<times> time option) option"

record timerange_widget =
  tr_start :: "time option"
  tr_end :: "time option"
  tr_value :: t_range

text \<open>\<^verbatim>\<open>_make_timerange\<close>: the slider's limits and value become the day's first and last time.\<close>

definition make_timerange :: "sample list \<Rightarrow> day \<Rightarrow> error + timerange_widget" where
  "make_timerange ds d =
     (let dsel = sel_day ds d
      in case time_min dsel of
           Inl e \<Rightarrow> Inl e
         | Inr t0 \<Rightarrow>
        (case time_max dsel of
           Inl e \<Rightarrow> Inl e
         | Inr t1 \<Rightarrow> Inr \<lparr>tr_start = Some t0, tr_end = Some t1, tr_value = Some (Some t0, Some t1)\<rparr>))"

text \<open>
  \<^verbatim>\<open>_filter_timerange\<close>. The bounds are timestamps here, so the slice is exact:
  \<open>t0 \<le> time \<le> t1\<close>.
\<close>

fun filter_timerange :: "sample list \<Rightarrow> t_range \<Rightarrow> sample list" where
  "filter_timerange ds_day None = ds_day"
| "filter_timerange ds_day (Some (None, _)) = ds_day"
| "filter_timerange ds_day (Some (_, None)) = ds_day"
| "filter_timerange ds_day (Some (Some t0, Some t1)) = sel_time time t0 t1 ds_day"

text \<open>\<^verbatim>\<open>_ds_for_view\<close>.\<close>

definition ds_for_view ::
  "datetime_mean \<Rightarrow> sample list \<Rightarrow> day \<Rightarrow> int \<Rightarrow> t_range \<Rightarrow> error + sample list" where
  "ds_for_view tm ds d coarsen tr =
     (case prep_day tm ds d coarsen of
        Inl e \<Rightarrow> Inl e
      | Inr ds_day \<Rightarrow> Inr (filter_timerange ds_day tr))"

section \<open>Plot builders\<close>

text \<open>
  A plot is the data a plotting call is given. One scatter panel of \<^verbatim>\<open>build_timeseries\<close>:
  its label, its points (time, value, colour value), marker size and alpha. The degree
  signs of the latitude and longitude labels are left out of the label strings.
\<close>

record scatter =
  ylabel :: string
  pts :: "(time \<times> val \<times> val) list"
  marker_size :: int
  marker_alpha :: real
  colorbar :: bool

definition scatter_of ::
  "sample list \<Rightarrow> (sample \<Rightarrow> val) \<Rightarrow> string \<Rightarrow> bool \<Rightarrow> int \<Rightarrow> real \<Rightarrow> scatter" where
  "scatter_of ds_day y lbl cb sz al =
     \<lparr>ylabel = lbl, pts = map (\<lambda>r. (time r, y r, hour_of_day r)) ds_day,
      marker_size = sz, marker_alpha = al, colorbar = cb\<rparr>"

definition build_timeseries :: "sample list \<Rightarrow> int \<Rightarrow> real \<Rightarrow> scatter list" where
  "build_timeseries ds_day sz al =
     [scatter_of ds_day altitude ''Altitude (m)'' True sz al,
      scatter_of ds_day pitch ''Pitch (deg)'' False sz al,
      scatter_of ds_day roll ''Roll (deg)'' False sz al,
      scatter_of ds_day t_kt19 ''KT19 (K)'' False sz al,
      scatter_of ds_day latitude ''Latitude'' False sz al,
      scatter_of ds_day longitude ''Longitude'' False sz al]"

text \<open>The daily-mean concentration grid handed to \<^verbatim>\<open>build_map\<close>: its cells.\<close>

type_synonym sic_mean = "val list"

text \<open>The point track of the map: longitude, latitude, colour value of each plotted row.\<close>

record track =
  track_pts :: "(real \<times> real \<times> val) list"
  track_size :: int
  track_alpha :: real

record map_plot =
  raster :: "sic_mean option"
  points :: track

text \<open>\<^verbatim>\<open>df.dropna(subset=["longitude", "latitude"])\<close>: rows with a NaN position are left out.\<close>

definition track_rows :: "sample list \<Rightarrow> (real \<times> real \<times> val) list" where
  "track_rows ds_day =
     concat (map (\<lambda>r. case (longitude r, latitude r) of
                         (Some x, Some y) \<Rightarrow> [(x, y, hour_of_day r)]
                       | _ \<Rightarrow> []) ds_day)"

definition build_map :: "sample list \<Rightarrow> sic_mean option \<Rightarrow> int \<Rightarrow> real \<Rightarrow> bool \<Rightarrow> map_plot" where
  "build_map ds_day ds_sic_day_mean sz al show_sic =
     (let pts = \<lparr>track_pts = track_rows ds_day, track_size = sz, track_alpha = al\<rparr>
      in if show_sic \<and> ds_sic_day_mean \<noteq> None
         then \<lparr>raster = ds_sic_day_mean, points = pts\<rparr>
         else \<lparr>raster = None, points = pts\<rparr>)"

section \<open>Reactive pipeline\<close>

text \<open>
  \<^verbatim>\<open>ds_sic_day.mean("time")\<close>: the mean of each grid cell over the selected time steps,
  NaN skipped.
\<close>

definition sic_day_mean :: "sic_frame list \<Rightarrow> sic_mean" where
  "sic_day_mean ds_sic_day = map nanmean (transpose (map cells ds_sic_day))"

text \<open>
  \<^verbatim>\<open>view\<close>. The slicer runs first, and its error ends the call. Selecting along \<^verbatim>\<open>time\<close>
  raises when the sea-ice dataset has lost that dimension.
\<close>

definition view ::
  "datetime_mean \<Rightarrow> sample list \<Rightarrow> sic_ds \<Rightarrow> day \<Rightarrow> int \<Rightarrow> t_range \<Rightarrow> int \<Rightarrow> real \<Rightarrow> bool
   \<Rightarrow> error + (map_plot \<times> scatter list)" where
  "view tm ds ds_sic d coarsen tr pointsize al show_sic =
     (case ds_for_view tm ds d coarsen tr of
        Inl e \<Rightarrow> Inl e
      | Inr ds_day \<Rightarrow>
          if \<not> time_dim ds_sic then Inl KeyError_NoTimeIndex
          else
            let ds_sic_day = sel_time stime (day_start d) (day_end d) (frames ds_sic);
                ds_sic_day_mean =
                  (if show_sic \<and> length ds_sic_day > 0
                   then Some (sic_day_mean ds_sic_day) else None);
                ts = build_timeseries ds_day pointsize al;
                mp = build_map ds_day ds_sic_day_mean (pointsize + 1) al show_sic
            in Inr (mp, ts))"


section \<open>Startup\<close>

text \<open>
  The state of the dashboard once the module body has run: the two datasets bound at
  module level, the list of days, the widget values, and the output pane.
\<close>

record app =
  DS :: "sample list"
  DS_SIC :: sic_ds
  days :: "day list"
  w_day :: day
  w_coarsen :: int
  w_pointsize :: int
  w_alpha :: real
  w_show_sic :: bool
  w_timerange :: timerange_widget
  out_pane :: "map_plot \<times> scatter list"

text \<open>
  The module body, top to bottom: load, list the days, guard against an empty list, create
  the widgets with their defaults, initialise the time range for the default day, and
  build the template, which evaluates \<^verbatim>\<open>view\<close> once for the output pane.
\<close>

definition startup :: "datetime_mean \<Rightarrow> filesystem \<Rightarrow> error + app" where
  "startup tm fs =
     (case load_data fs of
        Inl e \<Rightarrow> Inl e
      | Inr (ds, ds_sic) \<Rightarrow>
          let ds_days = DAYS ds
          in if length ds_days = 0 then Inl RuntimeError_NoDays
             else
               (case make_timerange ds (hd ds_days) of
                  Inl e \<Rightarrow> Inl e
                | Inr tw \<Rightarrow>
               (case view tm ds ds_sic (hd ds_days) 20 (tr_value tw) 5 (9 / 10) True of
                  Inl e \<Rightarrow> Inl e
                | Inr out \<Rightarrow>
                    Inr \<lparr>DS = ds, DS_SIC = ds_sic, days = ds_days, w_day = hd ds_days,
                         w_coarsen = 20, w_pointsize = 5, w_alpha = 9 / 10, w_show_sic = True,
                         w_timerange = tw, out_pane = out\<rparr>)))"

section \<open>The slicer as the specification words it\<close>

text \<open>
  The specification's view slicer: the records of the day, block-averaged over \<open>k\<close>
  consecutive time points when \<open>k > 1\<close> (the ragged remainder trimmed), then the records
  inside the requested window. Window \<open>i\<close> holds the records at positions \<open>i * k\<close> to
  \<open>i * k + k - 1\<close>; the average of a variable is the sum of its values that are there over
  their number; the average of the timestamps is the library's.
\<close>

definition spec_day_records :: "sample list \<Rightarrow> day \<Rightarrow> sample list" where
  "spec_day_records ds d = filter (\<lambda>r. day_of (time r) = d) ds"

definition spec_average :: "val list \<Rightarrow> val" where
  "spec_average vs =
     (let n = length (filter (\<lambda>v. v \<noteq> None) vs)
      in if n = 0 then None
         else Some ((\<Sum>v\<leftarrow>vs. case v of None \<Rightarrow> 0 | Some x \<Rightarrow> x) / real n))"

definition spec_window_rows :: "nat \<Rightarrow> sample list \<Rightarrow> nat \<Rightarrow> sample list" where
  "spec_window_rows k rows i = map (\<lambda>j. rows ! j) [i * k..<i * k + k]"

definition spec_block_average :: "datetime_mean \<Rightarrow> nat \<Rightarrow> sample list \<Rightarrow> sample list" where
  "spec_block_average tm k rows =
     map (\<lambda>i. let b = spec_window_rows k rows i
              in \<lparr>time = tm (map time (take (length rows div k * k) rows)) (map time b),
                  hour_of_day = spec_average (map hour_of_day b),
                  altitude = spec_average (map altitude b), pitch = spec_average (map pitch b),
                  roll = spec_average (map roll b), t_kt19 = spec_average (map t_kt19 b),
                  latitude = spec_average (map latitude b),
                  longitude = spec_average (map longitude b)\<rparr>)
         [0..<length rows div k]"

definition spec_window :: "sample list \<Rightarrow> t_range \<Rightarrow> sample list" where
  "spec_window rows tr =
     (case tr of
        Some (Some t0, Some t1) \<Rightarrow> filter (\<lambda>r. t0 \<le> time r \<and> time r \<le> t1) rows
      | _ \<Rightarrow> rows)"

definition spec_view_slicer ::
  "datetime_mean \<Rightarrow> sample list \<Rightarrow> day \<Rightarrow> int \<Rightarrow> t_range \<Rightarrow> sample list" where
  "spec_view_slicer tm ds d k tr =
     spec_window (if k > 1 then spec_block_average tm (nat k) (spec_day_records ds d)
                  else spec_day_records ds d) tr"

section \<open>A small file system\<close>

text \<open>
  Five navigation rows on two days (one of them without a latitude), and two sea-ice time
  steps on the first day whose cells include a negative value, values above 100 and a NaN.
  Only the second navigation candidate and the first sea-ice candidate exist.
\<close>

definition ex_raw_nav :: "raw_sample list" where
  "ex_raw_nav =
     [\<lparr>raw_time = 36000000000000, raw_altitude = Some 100, raw_pitch = Some 1, raw_roll = Some 0,
       raw_t_kt19 = Some 260, raw_latitude = Some 80, raw_longitude = Some 10\<rparr>,
      \<lparr>raw_time = 36001000000000, raw_altitude = Some 110, raw_pitch = Some 2, raw_roll = None,
       raw_t_kt19 = Some 262, raw_latitude = None, raw_longitude = Some 11\<rparr>,
      \<lparr>raw_time = 36002000000000, raw_altitude = Some 120, raw_pitch = Some 3, raw_roll = Some 2,
       raw_t_kt19 = Some 264, raw_latitude = Some 82, raw_longitude = Some 12\<rparr>,
      \<lparr>raw_time = 118800000000000, raw_altitude = Some 200, raw_pitch = Some 0, raw_roll = Some 0,
       raw_t_kt19 = Some 250, raw_latitude = Some 79, raw_longitude = Some 9\<rparr>,
      \<lparr>raw_time = 118801000000000, raw_altitude = Some 210, raw_pitch = Some 0, raw_roll = Some 1,
       raw_t_kt19 = Some 251, raw_latitude = Some 78, raw_longitude = Some 8\<rparr>]"

definition ex_raw_sic :: raw_sic where
  "ex_raw_sic =
     \<lparr>raw_frames =
        [\<lparr>stime = 43200000000000, cells = [Some (- 5), Some 50, Some 150, None]\<rparr>,
         \<lparr>stime = 46800000000000, cells = [Some 80, Some 101, Some 100, Some 0]\<rparr>]\<rparr>"

definition ex_fs :: filesystem where
  "ex_fs =
     [''../../../data/observations/processed/bbr_BACSAM2_p6_processed.nc'' \<mapsto> NavFile ex_raw_nav,
      ''data/observations/processed/satellite_unified/sic_modis-aqua_amsr2-gcom-w1_merged_nh_1000m_APRIL.nc'' \<mapsto> SicFile ex_raw_sic]"

text \<open>What \<^verbatim>\<open>load_data\<close> returns on the example file system.\<close>

definition ex_DS :: "sample list" where
  "ex_DS = map with_hour_of_day ex_raw_nav"

definition ex_DS_SIC :: sic_ds where
  "ex_DS_SIC =
     \<lparr>frames =
        [\<lparr>stime = 43200000000000, cells = [Some (- 5), Some 50, None, None]\<rparr>,
         \<lparr>stime = 46800000000000, cells = [Some 80, None, Some 100, Some 0]\<rparr>],
      time_dim = True\<rparr>"

text \<open>The navigation file alone, at the first candidate path.\<close>

definition ex_fs_no_sic :: filesystem where
  "ex_fs_no_sic =
     [''data/observations/processed/bbr_BACSAM2_p6_processed.nc'' \<mapsto> NavFile ex_raw_nav]"

text \<open>A navigation file without rows, beside the sea-ice file.\<close>

definition ex_fs_no_days :: filesystem where
  "ex_fs_no_days =
     [''data/observations/processed/bbr_BACSAM2_p6_processed.nc'' \<mapsto> NavFile [],
      ''data/observations/processed/satellite_unified/sic_modis-aqua_amsr2-gcom-w1_merged_nh_1000m_APRIL.nc'' \<mapsto> SicFile ex_raw_sic]"

section \<open>Label-based selection on a sorted index\<close>

lemma dropWhile_sorted_filter:
  "sorted (map tm rows) \<Longrightarrow> dropWhile (\<lambda>r. tm r < lo) rows = filter (\<lambda>r. lo \<le> tm r) rows"
proof (induction rows)
  case Nil
  then show ?case by simp
next
  case (Cons r rows)
  show ?case
  proof (cases "tm r < lo")
    case True
    with Cons show ?thesis by simp
  next
    case False
    with Cons.prems have "\<forall>x\<in>set rows. lo \<le> tm x" by auto
    then have "filter (\<lambda>r. lo \<le> tm r) rows = rows" by simp
    with False show ?thesis by simp
  qed
qed

lemma takeWhile_sorted_filter:
  "sorted (map tm rows) \<Longrightarrow> takeWhile (\<lambda>r. tm r \<le> hi) rows = filter (\<lambda>r. tm r \<le> hi) rows"
proof (induction rows)
  case Nil
  then show ?case by simp
next
  case (Cons r rows)
  show ?case
  proof (cases "tm r \<le> hi")
    case True
    with Cons show ?thesis by simp
  next
    case False
    with Cons.prems have "\<forall>x\<in>set rows. \<not> tm x \<le> hi" by auto
    then have "filter (\<lambda>r. tm r \<le> hi) rows = []" by simp
    with False show ?thesis by simp
  qed
qed

lemma sel_time_sorted:
  assumes "sorted (map tm rows)"
  shows "sel_time tm lo hi rows = filter (\<lambda>r. lo \<le> tm r \<and> tm r \<le> hi) rows"
proof -
  have "sorted (map tm (filter (\<lambda>r. lo \<le> tm r) rows))"
    using assms by (rule sorted_filter)
  then show ?thesis
    using assms by (simp add: sel_time_def dropWhile_sorted_filter takeWhile_sorted_filter conj_commute)
qed

lemma sel_time_idem: "sel_time tm lo hi (sel_time tm lo hi rows) = sel_time tm lo hi rows"
proof -
  define ys where "ys = dropWhile (\<lambda>r. tm r < lo) rows"
  have "dropWhile (\<lambda>r. tm r < lo) (takeWhile (\<lambda>r. tm r \<le> hi) ys) = takeWhile (\<lambda>r. tm r \<le> hi) ys"
  proof (cases ys)
    case Nil
    then show ?thesis by simp
  next
    case (Cons y ys')
    then have "\<not> tm y < lo"
      using hd_dropWhile [of "\<lambda>r. tm r < lo" rows] by (simp add: ys_def)
    with Cons show ?thesis by simp
  qed
  then show ?thesis
    by (simp add: sel_time_def ys_def)
qed

lemma day_bounds: "day_start d \<le> t \<and> t \<le> day_end d \<longleftrightarrow> day_of t = d"
  unfolding day_start_def day_end_def day_of_def NS_PER_DAY_def NS_PER_SECOND_def
  by auto

lemma sel_day_sorted:
  "sorted (map time ds) \<Longrightarrow> sel_day ds d = filter (\<lambda>r. day_of (time r) = d) ds"
  by (simp add: sel_day_def sel_time_sorted day_bounds)

lemma length_blocks: "length (blocks k xs) = length xs div k"
proof (induction k xs rule: blocks.induct)
  case (1 k xs)
  show ?case
  proof (cases "k = 0 \<or> length xs < k")
    case True
    then show ?thesis by (auto simp: blocks.simps [of k xs])
  next
    case False
    then have "length (blocks k (drop k xs)) = (length xs - k) div k"
      using 1 by simp
    with False show ?thesis
      by (simp add: blocks.simps [of k xs] le_div_geq)
  qed
qed

section \<open>Windows, means and extrema\<close>

lemma blocks_Nil: "blocks k xs = [] \<longleftrightarrow> k = 0 \<or> length xs < k"
proof -
  have "blocks k xs = [] \<longleftrightarrow> length xs div k = 0"
    using length_blocks [of k xs] by (metis length_0_conv)
  then show ?thesis by (auto simp: div_eq_0_iff)
qed

lemma blocks_nth:
  "blocks k xs = map (\<lambda>i. take k (drop (i * k) xs)) [0..<length xs div k]"
proof (induction k xs rule: blocks.induct)
  case (1 k xs)
  show ?case
  proof (cases "k = 0 \<or> length xs < k")
    case True
    then show ?thesis by (auto simp: blocks.simps [of k xs])
  next
    case False
    then have k: "0 < k" "k \<le> length xs" by auto
    have div: "length xs div k = Suc ((length xs - k) div k)"
      using k by (simp add: le_div_geq)
    have "blocks k (drop k xs) = map (\<lambda>i. take k (drop (i * k) (drop k xs))) [0..<(length xs - k) div k]"
      using 1 False by simp
    also have "\<dots> = map (\<lambda>i. take k (drop (Suc i * k) xs)) [0..<(length xs - k) div k]"
      by (simp add: add.commute)
    also have "\<dots> = map (\<lambda>i. take k (drop (i * k) xs)) (map Suc [0..<(length xs - k) div k])"
      by (simp add: comp_def)
    finally have tl: "blocks k (drop k xs) = map (\<lambda>i. take k (drop (i * k) xs)) [Suc 0..<Suc ((length xs - k) div k)]"
      by (simp only: map_Suc_upt)
    have "blocks k xs = take k xs # blocks k (drop k xs)"
      using False by (simp add: blocks.simps [of k xs])
    also have "\<dots> = map (\<lambda>i. take k (drop (i * k) xs)) (0 # [Suc 0..<Suc ((length xs - k) div k)])"
      by (simp add: tl)
    also have "0 # [Suc 0..<Suc ((length xs - k) div k)] = [0..<length xs div k]"
      by (simp add: div upt_rec [of 0])
    finally show ?thesis .
  qed
qed

lemma concat_blocks: "concat (blocks k xs) = take (length xs div k * k) xs"
proof (induction k xs rule: blocks.induct)
  case (1 k xs)
  show ?case
  proof (cases "k = 0 \<or> length xs < k")
    case True
    then show ?thesis by (auto simp: blocks.simps [of k xs])
  next
    case False
    then have k: "0 < k" "k \<le> length xs" by auto
    have div: "length xs div k * k = k + (length xs - k) div k * k"
      using k by (simp add: le_div_geq)
    have "concat (blocks k xs) = take k xs @ take ((length xs - k) div k * k) (drop k xs)"
      using 1 False by (simp add: blocks.simps [of k xs])
    also have "\<dots> = take (length xs div k * k) xs"
      unfolding div by (simp add: take_add)
    finally show ?thesis .
  qed
qed

lemma blocks_member:
  "b \<in> set (blocks k xs) \<Longrightarrow> set b \<subseteq> set xs \<and> length b = k \<and> 0 < k"
proof (induction k xs rule: blocks.induct)
  case (1 k xs)
  show ?case
  proof (cases "k = 0 \<or> length xs < k")
    case True
    with 1(2) show ?thesis by (simp add: blocks.simps [of k xs])
  next
    case False
    with 1(2) have "b = take k xs \<or> b \<in> set (blocks k (drop k xs))"
      by (simp add: blocks.simps [of k xs])
    then show ?thesis
    proof
      assume "b = take k xs"
      with False show ?thesis by (auto dest: in_set_takeD)
    next
      assume "b \<in> set (blocks k (drop k xs))"
      with 1(1) False have "set b \<subseteq> set (drop k xs) \<and> length b = k \<and> 0 < k" by simp
      then show ?thesis by (auto dest: in_set_dropD)
    qed
  qed
qed

lemma sum_list_le_bound:
  fixes ts :: "int list"
  shows "\<forall>x\<in>set ts. x \<le> c \<Longrightarrow> sum_list ts \<le> int (length ts) * c"
  by (induction ts) (auto simp: algebra_simps)

lemma sum_list_ge_bound:
  fixes ts :: "int list"
  shows "\<forall>x\<in>set ts. c \<le> x \<Longrightarrow> int (length ts) * c \<le> sum_list ts"
  by (induction ts) (auto simp: algebra_simps)

lemma time_mean_le:
  assumes "ts \<noteq> []" "\<forall>x\<in>set ts. x \<le> c"
  shows "time_mean whole ts \<le> c"
proof -
  have n: "0 < int (length ts)" using assms(1) by simp
  have le: "sum_list ts \<le> int (length ts) * c" using assms(2) by (rule sum_list_le_bound)
  have "sum_list ts div int (length ts) \<le> (int (length ts) * c) div int (length ts)"
    using le n by (rule zdiv_mono1)
  also have "(int (length ts) * c) div int (length ts) = c"
    using n by simp
  finally show ?thesis by (simp add: time_mean_def)
qed

lemma time_mean_ge:
  assumes "ts \<noteq> []" "\<forall>x\<in>set ts. c \<le> x"
  shows "c \<le> time_mean whole ts"
proof -
  have n: "0 < int (length ts)" using assms(1) by simp
  have le: "int (length ts) * c \<le> sum_list ts" using assms(2) by (rule sum_list_ge_bound)
  have "c = (int (length ts) * c) div int (length ts)"
    using n by simp
  also have "\<dots> \<le> sum_list ts div int (length ts)"
    using le n by (rule zdiv_mono1)
  finally show ?thesis by (simp add: time_mean_def)
qed

lemma monotone_time_mean: "monotone_mean time_mean"
  unfolding monotone_mean_def
proof (intro allI impI)
  fix whole :: "time list" and ts us :: "time list"
  assume a: "ts \<noteq> [] \<and> length ts = length us \<and> (\<forall>x\<in>set ts. \<forall>y\<in>set us. x \<le> y)"
  then have ne: "ts \<noteq> []" "us \<noteq> []" by auto
  have "\<forall>y\<in>set us. time_mean whole ts \<le> y"
  proof
    fix y assume "y \<in> set us"
    with a have "\<forall>x\<in>set ts. x \<le> y" by blast
    with ne(1) show "time_mean whole ts \<le> y" by (rule time_mean_le)
  qed
  with ne(2) show "time_mean whole ts \<le> time_mean whole us" by (rule time_mean_ge)
qed

lemma time_block_mean [simp]: "time (block_mean tm whole b) = tm whole (map time b)"
  by (simp add: block_mean_def)

lemma sorted_block_means:
  assumes "monotone_mean tm"
  shows "sorted (map time xs) \<Longrightarrow> sorted (map time (map (block_mean tm whole) (blocks k xs)))"
proof (induction k xs rule: blocks.induct)
  case (1 k xs)
  show ?case
  proof (cases "k = 0 \<or> length xs < k")
    case True
    then show ?thesis by (simp add: blocks.simps [of k xs])
  next
    case False
    then have k: "0 < k" "k \<le> length xs" by auto
    have split: "map time xs = map time (take k xs) @ map time (drop k xs)"
      by (simp flip: map_append)
    from "1.prems" have cross: "\<forall>x\<in>set (take k xs). \<forall>y\<in>set (drop k xs). time x \<le> time y"
      and rest: "sorted (map time (drop k xs))"
      unfolding split sorted_append by auto
    have tl: "sorted (map time (map (block_mean tm whole) (blocks k (drop k xs))))"
      using 1(1) False rest by simp
    have hd_le: "time (block_mean tm whole (take k xs)) \<le> time (block_mean tm whole b)"
      if b: "b \<in> set (blocks k (drop k xs))" for b
    proof -
      from blocks_member [OF b] have sub: "set b \<subseteq> set (drop k xs)" and len: "length b = k" by auto
      have "map time (take k xs) \<noteq> []" using k by auto
      moreover have "length (map time (take k xs)) = length (map time b)" using k len by simp
      moreover have "\<forall>x\<in>set (map time (take k xs)). \<forall>y\<in>set (map time b). x \<le> y"
        using cross sub by auto
      ultimately have "tm whole (map time (take k xs)) \<le> tm whole (map time b)"
        using assms unfolding monotone_mean_def by blast
      then show ?thesis by simp
    qed
    have "blocks k xs = take k xs # blocks k (drop k xs)"
      using False by (simp add: blocks.simps [of k xs])
    with tl hd_le show ?thesis by auto
  qed
qed

lemma fold_min_Min:
  fixes f :: "'a \<Rightarrow> int"
  shows "fold (\<lambda>x m. min (f x) m) rs a = Min (insert a (f ` set rs))"
proof (induction rs arbitrary: a)
  case Nil
  then show ?case by simp
next
  case (Cons r rs)
  have "Min (insert (min (f r) a) (f ` set rs)) = Min (insert a (insert (f r) (f ` set rs)))"
    by (cases "set rs = {}") (auto simp: min.commute min.left_commute min.assoc)
  with Cons show ?case by simp
qed

lemma fold_max_Max:
  fixes f :: "'a \<Rightarrow> int"
  shows "fold (\<lambda>x m. max (f x) m) rs a = Max (insert a (f ` set rs))"
proof (induction rs arbitrary: a)
  case Nil
  then show ?case by simp
next
  case (Cons r rs)
  have "Max (insert (max (f r) a) (f ` set rs)) = Max (insert a (insert (f r) (f ` set rs)))"
    by (cases "set rs = {}") (auto simp: max.commute max.left_commute max.assoc)
  with Cons show ?case by simp
qed

lemma time_min_Min: "rows \<noteq> [] \<Longrightarrow> time_min rows = Inr (Min (time ` set rows))"
  by (cases rows) (simp_all add: time_min_def fold_min_Min)

lemma time_max_Max: "rows \<noteq> [] \<Longrightarrow> time_max rows = Inr (Max (time ` set rows))"
  by (cases rows) (simp_all add: time_max_def fold_max_Max)

lemma set_DAYS: "set (DAYS ds) = (\<lambda>r. day_of (time r)) ` set ds"
  by (simp add: DAYS_def)

section \<open>Loading\<close>

lemma load_data_ex_fs: "load_data ex_fs = Inr (ex_DS, ex_DS_SIC)"
  by (simp add: load_data_def resolve_path_def path_exists_def ex_fs_def
      CANDIDATE_DATASET_PATHS_def CANDIDATE_SIC_PATHS_def open_nav_def open_sic_def
      ex_DS_def ex_DS_SIC_def prepare_sic_def ex_raw_sic_def mask_frame_def where_le_100_def
      sic_le_100_def)

lemma present_where_le_100:
  "present (map where_le_100 cs) = filter (\<lambda>v. v \<le> 100) (present cs)"
  by (induction cs) (auto simp: present_def where_le_100_def sic_le_100_def split: option.splits)

lemma sic_values_prepare_sic:
  "sic_values (prepare_sic g) = filter (\<lambda>v. v \<le> 100) (raw_sic_values g)"
  by (simp add: sic_values_def raw_sic_values_def prepare_sic_def mask_frame_def
      present_where_le_100 filter_concat comp_def)

lemma load_data_InrD:
  assumes "load_data fs = Inr (ds, ds_sic)"
  obtains p q rows g where
    "resolve_path fs CANDIDATE_DATASET_PATHS = Inr p" "open_nav fs p = Inr rows"
    "resolve_path fs CANDIDATE_SIC_PATHS = Inr q" "open_sic fs q = Inr g"
    "ds = map with_hour_of_day rows" "ds_sic = prepare_sic g"
  using assms by (auto simp: load_data_def split: sum.splits)

text \<open>
  C1, as the code has it. The mask applied at load time is \<^verbatim>\<open>sic <= 100\<close> alone: the
  concentration values present in the loaded dataset are exactly the values of the file
  that are at most 100, in order, so every retained value satisfies \<open>sic \<le> 100\<close> and every
  value above 100 is masked out. No lower bound is applied.
\<close>

theorem load_data_sic_at_most_100:
  assumes "load_data fs = Inr (ds, ds_sic)"
  shows "\<exists>q g. resolve_path fs CANDIDATE_SIC_PATHS = Inr q \<and> open_sic fs q = Inr g \<and>
           sic_values ds_sic = filter (\<lambda>v. v \<le> 100) (raw_sic_values g) \<and>
           list_all (\<lambda>v. v \<le> 100) (sic_values ds_sic)"
proof -
  from assms obtain q g where q: "resolve_path fs CANDIDATE_SIC_PATHS = Inr q"
    and g: "open_sic fs q = Inr g" and d: "ds_sic = prepare_sic g"
    by (rule load_data_InrD)
  have "sic_values ds_sic = filter (\<lambda>v. v \<le> 100) (raw_sic_values g)"
    by (simp add: d sic_values_prepare_sic)
  moreover from this have "list_all (\<lambda>v. v \<le> 100) (sic_values ds_sic)"
    by (simp add: list_all_iff)
  ultimately show ?thesis using q g by blast
qed

text \<open>The example file system: the values 150 and 101 are masked, the value -5 is kept.\<close>

theorem load_data_sic_at_most_100_witness:
  "load_data ex_fs = Inr (ex_DS, ex_DS_SIC) \<and> sic_values ex_DS_SIC = [- 5, 50, 80, 100, 0] \<and>
   list_all (\<lambda>v. v \<le> 100) (sic_values ex_DS_SIC)"
proof -
  have h: "load_data ex_fs = Inr (ex_DS, ex_DS_SIC)" by (rule load_data_ex_fs)
  have v: "sic_values ex_DS_SIC = [- 5, 50, 80, 100, 0]"
    by (simp add: sic_values_def ex_DS_SIC_def present_def)
  from load_data_sic_at_most_100 [OF h] have "list_all (\<lambda>v. v \<le> 100) (sic_values ex_DS_SIC)"
    by blast
  with h v show ?thesis by blast
qed

text \<open>
  C1 as stated (every retained value within 0..100) fails on the example file system: the
  cell holding -5 passes the mask.
\<close>

theorem load_data_keeps_negative_sic:
  "load_data ex_fs = Inr (ex_DS, ex_DS_SIC) \<and> \<not> sic_in_0_100 ex_DS_SIC"
  by (simp add: load_data_ex_fs sic_in_0_100_def sic_values_def ex_DS_SIC_def present_def)

section \<open>Path resolution and startup\<close>

lemma first_existing_None: "first_existing fs cands = None \<longleftrightarrow> (\<forall>q\<in>set cands. \<not> path_exists fs q)"
  by (induction cands) auto

lemma first_existing_append:
  "\<forall>q\<in>set pre. \<not> path_exists fs q \<Longrightarrow> path_exists fs p \<Longrightarrow>
   first_existing fs (pre @ p # post) = Some p"
  by (induction pre) auto

lemma resolve_path_none_exists:
  "\<forall>q\<in>set (c # cs). \<not> path_exists fs q \<Longrightarrow> resolve_path fs (c # cs) = Inr c"
  using first_existing_None [of fs "c # cs"] by (simp add: resolve_path_def)

lemma open_missing:
  "\<not> path_exists fs p \<Longrightarrow> open_nav fs p = Inl FileNotFoundError \<and> open_sic fs p = Inl FileNotFoundError"
  by (simp add: path_exists_def open_nav_def open_sic_def)

lemma open_nav_error: "open_nav fs p = Inl e \<Longrightarrow> e = FileNotFoundError \<or> e = NotADataset"
  by (auto simp: open_nav_def split: option.splits disk_file.splits)

lemma open_sic_error: "open_sic fs p = Inl e \<Longrightarrow> e = FileNotFoundError \<or> e = NotADataset"
  by (auto simp: open_sic_def split: option.splits disk_file.splits)

lemma resolve_candidates:
  "\<exists>p. resolve_path fs CANDIDATE_DATASET_PATHS = Inr p"
  "\<exists>q. resolve_path fs CANDIDATE_SIC_PATHS = Inr q"
  by (auto simp: resolve_path_def CANDIDATE_DATASET_PATHS_def CANDIDATE_SIC_PATHS_def
      split: option.splits)

lemma load_data_error:
  assumes "load_data fs = Inl e"
  shows "e = FileNotFoundError \<or> e = NotADataset"
proof -
  from resolve_candidates [of fs] obtain p q where
    p: "resolve_path fs CANDIDATE_DATASET_PATHS = Inr p" and
    q: "resolve_path fs CANDIDATE_SIC_PATHS = Inr q" by blast
  show ?thesis
  proof (cases "open_nav fs p")
    case (Inl e')
    with assms p q have "e = e'" by (simp add: load_data_def)
    with Inl show ?thesis by (auto dest: open_nav_error)
  next
    case (Inr rows)
    with assms p q obtain e' where "open_sic fs q = Inl e'" "e = e'"
      by (auto simp: load_data_def split: sum.splits)
    then show ?thesis by (auto dest: open_sic_error)
  qed
qed

lemma load_data_nav_missing:
  assumes "\<forall>q\<in>set CANDIDATE_DATASET_PATHS. \<not> path_exists fs q"
  shows "load_data fs = Inl FileNotFoundError"
proof -
  obtain c cs where cands: "CANDIDATE_DATASET_PATHS = c # cs"
    by (simp add: CANDIDATE_DATASET_PATHS_def)
  from assms have p: "resolve_path fs CANDIDATE_DATASET_PATHS = Inr c"
    unfolding cands by (rule resolve_path_none_exists)
  from assms have "\<not> path_exists fs c" by (simp add: cands)
  then have "open_nav fs c = Inl FileNotFoundError" by (simp add: open_missing)
  with p resolve_candidates(2) [of fs] show ?thesis
    by (auto simp: load_data_def)
qed

lemma load_data_sic_missing:
  assumes "\<forall>q\<in>set CANDIDATE_SIC_PATHS. \<not> path_exists fs q"
  shows "\<exists>e. load_data fs = Inl e"
proof -
  obtain c cs where cands: "CANDIDATE_SIC_PATHS = c # cs"
    by (simp add: CANDIDATE_SIC_PATHS_def)
  from assms have q: "resolve_path fs CANDIDATE_SIC_PATHS = Inr c"
    unfolding cands by (rule resolve_path_none_exists)
  from assms have "\<not> path_exists fs c" by (simp add: cands)
  then have "open_sic fs c = Inl FileNotFoundError" by (simp add: open_missing)
  with q resolve_candidates(1) [of fs] show ?thesis
    by (auto simp: load_data_def split: sum.splits)
qed

text \<open>
  C7. \<^verbatim>\<open>_resolve_path\<close> returns the first candidate that exists, in the order of the list:
  the candidate that follows a prefix of missing ones. When no candidate exists it returns
  the first candidate, and opening that path fails in the loading library. \<^verbatim>\<open>load_data\<close>
  then returns no data: it fails with the library's error when the navigation candidates
  are all missing, and with an error of the library when the sea-ice candidates are.
\<close>

theorem resolve_path_first_existing_else_first:
  "((\<forall>q\<in>set pre. \<not> path_exists fs q) \<and> path_exists fs p
      \<longrightarrow> resolve_path fs (pre @ p # post) = Inr p) \<and>
   ((\<forall>q\<in>set (c # cs). \<not> path_exists fs' q)
      \<longrightarrow> resolve_path fs' (c # cs) = Inr c \<and>
          open_nav fs' c = Inl FileNotFoundError \<and> open_sic fs' c = Inl FileNotFoundError) \<and>
   ((\<forall>q\<in>set CANDIDATE_DATASET_PATHS. \<not> path_exists fs1 q)
      \<longrightarrow> load_data fs1 = Inl FileNotFoundError) \<and>
   ((\<forall>q\<in>set CANDIDATE_SIC_PATHS. \<not> path_exists fs2 q)
      \<longrightarrow> load_data fs2 = Inl FileNotFoundError \<or> load_data fs2 = Inl NotADataset)"
proof (intro conjI impI)
  assume "(\<forall>q\<in>set pre. \<not> path_exists fs q) \<and> path_exists fs p"
  then show "resolve_path fs (pre @ p # post) = Inr p"
    by (simp add: resolve_path_def first_existing_append)
next
  assume a: "\<forall>q\<in>set (c # cs). \<not> path_exists fs' q"
  then show "resolve_path fs' (c # cs) = Inr c" by (rule resolve_path_none_exists)
  from a have "\<not> path_exists fs' c" by simp
  then show "open_nav fs' c = Inl FileNotFoundError" "open_sic fs' c = Inl FileNotFoundError"
    by (simp_all add: open_missing)
next
  assume "\<forall>q\<in>set CANDIDATE_DATASET_PATHS. \<not> path_exists fs1 q"
  then show "load_data fs1 = Inl FileNotFoundError" by (rule load_data_nav_missing)
next
  assume "\<forall>q\<in>set CANDIDATE_SIC_PATHS. \<not> path_exists fs2 q"
  then obtain e where "load_data fs2 = Inl e" using load_data_sic_missing by blast
  then show "load_data fs2 = Inl FileNotFoundError \<or> load_data fs2 = Inl NotADataset"
    using load_data_error by blast
qed

text \<open>
  On the example file system the second navigation candidate is returned; on an empty
  file system the first candidate is returned and the load fails; with the navigation file
  in place and no sea-ice file the load fails as well.
\<close>

theorem resolve_path_first_existing_else_first_witness:
  "resolve_path ex_fs CANDIDATE_DATASET_PATHS =
     Inr ''../../../data/observations/processed/bbr_BACSAM2_p6_processed.nc'' \<and>
   resolve_path Map.empty CANDIDATE_SIC_PATHS = Inr (hd CANDIDATE_SIC_PATHS) \<and>
   open_sic Map.empty (hd CANDIDATE_SIC_PATHS) = Inl FileNotFoundError \<and>
   load_data Map.empty = Inl FileNotFoundError \<and>
   load_data ex_fs_no_sic = Inl FileNotFoundError"
proof -
  let ?p0 = "''data/observations/processed/bbr_BACSAM2_p6_processed.nc''"
  let ?p1 = "''../../../data/observations/processed/bbr_BACSAM2_p6_processed.nc''"
  let ?s0 = "''data/observations/processed/satellite_unified/sic_modis-aqua_amsr2-gcom-w1_merged_nh_1000m_APRIL.nc''"
  let ?s1 = "''../../../data/observations/processed/satellite_unified/sic_modis-aqua_amsr2-gcom-w1_merged_nh_1000m_APRIL.nc''"
  have nav: "CANDIDATE_DATASET_PATHS = [?p0] @ ?p1 # []"
    by (simp add: CANDIDATE_DATASET_PATHS_def)
  have sic: "CANDIDATE_SIC_PATHS = ?s0 # [?s1]"
    by (simp add: CANDIDATE_SIC_PATHS_def)
  have h1: "(\<forall>q\<in>set [?p0]. \<not> path_exists ex_fs q) \<and> path_exists ex_fs ?p1"
    by (simp add: path_exists_def ex_fs_def)
  have h2: "\<forall>q\<in>set (?s0 # [?s1]). \<not> path_exists Map.empty q"
    by (simp add: path_exists_def)
  have h3: "\<forall>q\<in>set CANDIDATE_DATASET_PATHS. \<not> path_exists Map.empty q"
    by (simp add: path_exists_def)
  have h4: "\<forall>q\<in>set CANDIDATE_SIC_PATHS. \<not> path_exists ex_fs_no_sic q"
    by (simp add: path_exists_def ex_fs_no_sic_def CANDIDATE_SIC_PATHS_def)
  have nd: "load_data ex_fs_no_sic \<noteq> Inl NotADataset"
    by (simp add: load_data_def resolve_path_def path_exists_def ex_fs_no_sic_def
        CANDIDATE_DATASET_PATHS_def CANDIDATE_SIC_PATHS_def open_nav_def open_sic_def)
  from resolve_path_first_existing_else_first
    [of "[?p0]" ex_fs ?p1 "[]" ?s0 "[?s1]" Map.empty Map.empty ex_fs_no_sic]
    h1 h2 h3 h4 nd
  show ?thesis
    unfolding nav sic by simp
qed

lemma DAYS_Nil: "DAYS ds = [] \<longleftrightarrow> ds = []"
proof -
  have "DAYS ds = [] \<longleftrightarrow> set (DAYS ds) = {}" by simp
  then show ?thesis by (simp add: set_DAYS)
qed

lemma make_timerange_error: "make_timerange ds d = Inl e \<Longrightarrow> e = ValueError_EmptyReduction"
  by (auto simp: make_timerange_def time_min_def time_max_def Let_def split: sum.splits list.splits)

lemma make_timerange_nonempty:
  assumes "sel_day ds d \<noteq> []"
  shows "make_timerange ds d =
           Inr \<lparr>tr_start = Some (Min (time ` set (sel_day ds d))),
                tr_end = Some (Max (time ` set (sel_day ds d))),
                tr_value = Some (Some (Min (time ` set (sel_day ds d))),
                                 Some (Max (time ` set (sel_day ds d))))\<rparr>"
  using assms by (simp add: make_timerange_def Let_def time_min_Min time_max_Max)

lemma sel_day_of_listed_day:
  assumes "sorted (map time ds)" "d \<in> set (DAYS ds)"
  shows "sel_day ds d \<noteq> []"
proof -
  from assms(2) obtain r where "r \<in> set ds" "day_of (time r) = d"
    by (auto simp: set_DAYS)
  then have "r \<in> set (filter (\<lambda>r. day_of (time r) = d) ds)" by simp
  then have "filter (\<lambda>r. day_of (time r) = d) ds \<noteq> []" by (metis empty_iff empty_set)
  then show ?thesis
    using assms(1) by (simp add: sel_day_sorted)
qed

lemma prep_day_error: "prep_day tm ds d k = Inl e \<Longrightarrow> e = ValueError_EmptyReduction"
  by (auto simp: prep_day_def coarsen_mean_def Let_def split: if_splits)

lemma ds_for_view_error: "ds_for_view tm ds d k tr = Inl e \<Longrightarrow> e = ValueError_EmptyReduction"
  by (auto simp: ds_for_view_def split: sum.splits dest: prep_day_error)

lemma view_error:
  "view tm ds ds_sic d k tr ps al b = Inl e \<Longrightarrow>
   e = ValueError_EmptyReduction \<or> e = KeyError_NoTimeIndex"
  by (auto simp: view_def Let_def split: sum.splits if_splits dest: ds_for_view_error)

text \<open>
  C6. Startup fails with the script's own \<^verbatim>\<open>RuntimeError\<close> exactly when the load succeeded
  and the list of days is empty, and the list of days is empty exactly when the navigation
  time coordinate is.
\<close>

theorem startup_no_days_guard:
  "(startup tm fs = Inl RuntimeError_NoDays \<longleftrightarrow>
      (\<exists>ds ds_sic. load_data fs = Inr (ds, ds_sic) \<and> DAYS ds = [])) \<and>
   (DAYS ds' = [] \<longleftrightarrow> map time ds' = [])"
proof
  show "startup tm fs = Inl RuntimeError_NoDays \<longleftrightarrow>
      (\<exists>ds ds_sic. load_data fs = Inr (ds, ds_sic) \<and> DAYS ds = [])"
  proof (cases "load_data fs")
    case (Inl e)
    then have "e \<noteq> RuntimeError_NoDays" by (auto dest: load_data_error)
    with Inl show ?thesis by (simp add: startup_def)
  next
    case (Inr r)
    obtain ds ds_sic where r: "r = (ds, ds_sic)" by (cases r)
    show ?thesis
    proof (cases "DAYS ds = []")
      case True
      with Inr r show ?thesis by (simp add: startup_def)
    next
      case False
      have "startup tm fs \<noteq> Inl RuntimeError_NoDays"
        using Inr r False
        by (auto simp: startup_def Let_def split: sum.splits
            dest: make_timerange_error view_error)
      with Inr r False show ?thesis by simp
    qed
  qed
  show "DAYS ds' = [] \<longleftrightarrow> map time ds' = []" by (simp add: DAYS_Nil)
qed

lemma load_data_ex_fs_no_days: "load_data ex_fs_no_days = Inr ([], ex_DS_SIC)"
  by (simp add: load_data_def resolve_path_def path_exists_def ex_fs_no_days_def
      CANDIDATE_DATASET_PATHS_def CANDIDATE_SIC_PATHS_def open_nav_def open_sic_def
      ex_DS_SIC_def prepare_sic_def ex_raw_sic_def mask_frame_def where_le_100_def
      sic_le_100_def)

text \<open>A navigation file without rows raises the guard; the example file system does not.\<close>

theorem startup_no_days_guard_witness:
  "load_data ex_fs_no_days = Inr ([], ex_DS_SIC) \<and> DAYS [] = [] \<and>
   startup time_mean ex_fs_no_days = Inl RuntimeError_NoDays \<and>
   load_data ex_fs = Inr (ex_DS, ex_DS_SIC) \<and> DAYS ex_DS = [0, 1] \<and>
   startup time_mean ex_fs \<noteq> Inl RuntimeError_NoDays"
proof -
  have d0: "DAYS [] = []" by (simp add: DAYS_def)
  have d1: "DAYS ex_DS = [0, 1]"
    by (simp add: DAYS_def ex_DS_def ex_raw_nav_def with_hour_of_day_def day_of_def
        NS_PER_DAY_def NS_PER_SECOND_def)
  have a: "startup time_mean ex_fs_no_days = Inl RuntimeError_NoDays"
    using startup_no_days_guard [of time_mean ex_fs_no_days "[]"] load_data_ex_fs_no_days d0
    by blast
  have "\<not> (\<exists>ds ds_sic. load_data ex_fs = Inr (ds, ds_sic) \<and> DAYS ds = [])"
    using load_data_ex_fs d1 by simp
  then have b: "startup time_mean ex_fs \<noteq> Inl RuntimeError_NoDays"
    using startup_no_days_guard [of time_mean ex_fs "[]"] by blast
  from a b d0 d1 load_data_ex_fs load_data_ex_fs_no_days show ?thesis by blast
qed

section \<open>The day's time range, coarsening and the time window\<close>

lemma set_sel_day_sorted:
  "sorted (map time ds) \<Longrightarrow> set (sel_day ds d) = {r \<in> set ds. day_of (time r) = d}"
  by (auto simp: sel_day_sorted)

text \<open>
  C2. For a navigation dataset whose time coordinate is sorted (label slicing needs a
  monotonic index) and a day listed in \<^verbatim>\<open>DAYS\<close>, \<^verbatim>\<open>_make_timerange\<close> succeeds and sets the
  slider's start, end and value to the minimum and the maximum timestamp of the records
  of that day. The range is not empty: the bounds are ordered, the day has records, and
  filtering the day's slice to the range returns all of them.
\<close>

theorem make_timerange_day_bounds:
  assumes "sorted (map time ds)" and "d \<in> set (DAYS ds)"
  shows "make_timerange ds d =
           Inr \<lparr>tr_start = Some (Min (time ` {r \<in> set ds. day_of (time r) = d})),
                tr_end = Some (Max (time ` {r \<in> set ds. day_of (time r) = d})),
                tr_value = Some (Some (Min (time ` {r \<in> set ds. day_of (time r) = d})),
                                 Some (Max (time ` {r \<in> set ds. day_of (time r) = d})))\<rparr> \<and>
         Min (time ` {r \<in> set ds. day_of (time r) = d}) \<le> Max (time ` {r \<in> set ds. day_of (time r) = d}) \<and>
         filter_timerange (sel_day ds d)
           (Some (Some (Min (time ` {r \<in> set ds. day_of (time r) = d})),
                  Some (Max (time ` {r \<in> set ds. day_of (time r) = d})))) = sel_day ds d \<and>
         sel_day ds d \<noteq> []"
proof -
  let ?T = "time ` {r \<in> set ds. day_of (time r) = d}"
  have ne: "sel_day ds d \<noteq> []" using assms by (rule sel_day_of_listed_day)
  have T: "time ` set (sel_day ds d) = ?T" using assms(1) by (simp add: set_sel_day_sorted)
  have fin: "finite ?T" and neT: "?T \<noteq> {}"
    using ne T by (auto simp flip: T)
  have mk: "make_timerange ds d =
      Inr \<lparr>tr_start = Some (Min ?T), tr_end = Some (Max ?T), tr_value = Some (Some (Min ?T), Some (Max ?T))\<rparr>"
    using make_timerange_nonempty [OF ne] by (simp only: T)
  from neT obtain t where t: "t \<in> ?T" by blast
  have "Min ?T \<le> t" "t \<le> Max ?T" using fin t by simp_all
  then have le: "Min ?T \<le> Max ?T" by simp
  have srt: "sorted (map time (sel_day ds d))"
    using assms(1) by (simp add: sel_day_sorted sorted_filter)
  have "\<forall>r\<in>set (sel_day ds d). Min ?T \<le> time r \<and> time r \<le> Max ?T"
    using fin by (auto simp flip: T)
  then have "filter (\<lambda>r. Min ?T \<le> time r \<and> time r \<le> Max ?T) (sel_day ds d) = sel_day ds d"
    by simp
  then have full: "filter_timerange (sel_day ds d) (Some (Some (Min ?T), Some (Max ?T))) = sel_day ds d"
    using srt by (simp add: sel_time_sorted)
  from mk le full ne show ?thesis by blast
qed

lemma sorted_ex_DS: "sorted (map time ex_DS)"
  by (simp add: ex_DS_def ex_raw_nav_def with_hour_of_day_def)

lemma DAYS_ex_DS: "DAYS ex_DS = [0, 1]"
  by (simp add: DAYS_def ex_DS_def ex_raw_nav_def with_hour_of_day_def day_of_def
      NS_PER_DAY_def NS_PER_SECOND_def)

lemma Min_ex: "Min (time ` {r \<in> set ex_DS. day_of (time r) = 0}) = 36000000000000"
   "Max (time ` {r \<in> set ex_DS. day_of (time r) = 0}) = 36002000000000"
proof -
  have "{r \<in> set ex_DS. day_of (time r) = 0} = set (filter (\<lambda>r. day_of (time r) = 0) ex_DS)"
    by auto
  also have "filter (\<lambda>r. day_of (time r) = 0) ex_DS = take 3 ex_DS"
    by (simp add: ex_DS_def ex_raw_nav_def with_hour_of_day_def day_of_def
      NS_PER_DAY_def NS_PER_SECOND_def)
  finally have "time ` {r \<in> set ex_DS. day_of (time r) = 0} = {36000000000000, 36001000000000, 36002000000000}"
    by (simp add: ex_DS_def ex_raw_nav_def with_hour_of_day_def)
  then show "Min (time ` {r \<in> set ex_DS. day_of (time r) = 0}) = 36000000000000"
   "Max (time ` {r \<in> set ex_DS. day_of (time r) = 0}) = 36002000000000"
    by simp_all
qed

text \<open>The first day of the example dataset: three records, from 10:00:00 to 10:00:02.\<close>

theorem make_timerange_day_bounds_witness:
  "sorted (map time ex_DS) \<and> 0 \<in> set (DAYS ex_DS) \<and>
   make_timerange ex_DS 0 =
     Inr \<lparr>tr_start = Some 36000000000000, tr_end = Some 36002000000000,
          tr_value = Some (Some 36000000000000, Some 36002000000000)\<rparr> \<and>
   filter_timerange (sel_day ex_DS 0) (Some (Some 36000000000000, Some 36002000000000)) = sel_day ex_DS 0 \<and>
   sel_day ex_DS 0 \<noteq> []"
proof -
  have d: "0 \<in> set (DAYS ex_DS)" by (simp add: DAYS_ex_DS)
  from make_timerange_day_bounds [OF sorted_ex_DS d] sorted_ex_DS d
  show ?thesis by (simp add: Min_ex)
qed

lemma sel_day_ex_DS_0: "sel_day ex_DS 0 = take 3 ex_DS"
  by (simp add: sel_day_sorted sorted_ex_DS)
    (simp add: ex_DS_def ex_raw_nav_def with_hour_of_day_def day_of_def
      NS_PER_DAY_def NS_PER_SECOND_def)

lemma length_sel_day_ex_DS_0: "length (sel_day ex_DS 0) = 3"
  unfolding sel_day_ex_DS_0 by (simp add: ex_DS_def ex_raw_nav_def)

lemma coarsen_mean_full:
  assumes "0 < k" "k \<le> length rows"
  shows "coarsen_mean tm k rows =
           Inr (map (block_mean tm (map time (take (length rows div k * k) rows))) (blocks k rows))"
  using assms by (simp add: coarsen_mean_def Let_def blocks_Nil concat_blocks)

lemma coarsen_mean_short:
  "length rows < k \<Longrightarrow> coarsen_mean tm k rows = Inl ValueError_EmptyReduction"
  by (simp add: coarsen_mean_def Let_def blocks_Nil)

lemma prep_day_full:
  assumes "1 < k" "nat k \<le> length (sel_day ds d)"
  shows "prep_day tm ds d k =
           Inr (map (block_mean tm
                  (map time (take (length (sel_day ds d) div nat k * nat k) (sel_day ds d))))
                  (blocks (nat k) (sel_day ds d)))"
  using assms by (simp add: prep_day_def Let_def coarsen_mean_full)

lemma prep_day_short:
  "1 < k \<Longrightarrow> length (sel_day ds d) < nat k \<Longrightarrow> prep_day tm ds d k = Inl ValueError_EmptyReduction"
  by (simp add: prep_day_def Let_def coarsen_mean_short)

lemma prep_day_no_coarsen: "k \<le> 1 \<Longrightarrow> prep_day tm ds d k = Inr (sel_day ds d)"
  by (simp add: prep_day_def Let_def)




text \<open>
  C4. Filtering a slice to a time range and filtering the result to the same range again
  gives the same slice, hence the same record count; when the range is missing or has a
  missing bound both are the slice itself.
\<close>

theorem filter_timerange_idempotent:
  "filter_timerange (filter_timerange ds_day tr) tr = filter_timerange ds_day tr \<and>
   length (filter_timerange (filter_timerange ds_day tr) tr) = length (filter_timerange ds_day tr)"
proof -
  have "filter_timerange (filter_timerange ds_day tr) tr = filter_timerange ds_day tr"
    by (cases "(ds_day, tr)" rule: filter_timerange.cases) (simp_all add: sel_time_idem)
  then show ?thesis by simp
qed

text \<open>The example dataset filtered from 10:00:01 of the first day to 09:00:00 of the second.\<close>

theorem filter_timerange_idempotent_witness:
  "length (filter_timerange ex_DS (Some (Some 36001000000000, Some 118800000000000))) = 3 \<and>
   length (filter_timerange (filter_timerange ex_DS (Some (Some 36001000000000, Some 118800000000000)))
      (Some (Some 36001000000000, Some 118800000000000))) = 3"
proof -
  have "length (filter_timerange ex_DS (Some (Some 36001000000000, Some 118800000000000))) = 3"
    by (simp add: sel_time_def ex_DS_def ex_raw_nav_def with_hour_of_day_def)
  with filter_timerange_idempotent [of ex_DS "Some (Some 36001000000000, Some 118800000000000)"]
  show ?thesis by simp
qed

section \<open>The map and the sea-ice layer\<close>

















lemma nanmean_spec_average: "nanmean vs = spec_average vs"
proof -
  have "length (present vs) = length (filter (\<lambda>v. v \<noteq> None) vs)"
    by (induction vs) (auto simp: present_def split: option.splits)
  moreover have "sum_list (present vs) = (\<Sum>v\<leftarrow>vs. case v of None \<Rightarrow> 0 | Some x \<Rightarrow> x)"
    by (induction vs) (auto simp: present_def split: option.splits)
  ultimately show ?thesis
    unfolding nanmean_def spec_average_def Let_def
    by (metis (no_types, lifting) length_0_conv)
qed






section \<open>The view slicer\<close>

lemma take_drop_nth:
  assumes "m + k \<le> length xs"
  shows "take k (drop m xs) = map (\<lambda>j. xs ! j) [m..<m + k]"
proof (rule nth_equalityI)
  show "length (take k (drop m xs)) = length (map (\<lambda>j. xs ! j) [m..<m + k])"
    using assms by simp
next
  fix i assume "i < length (take k (drop m xs))"
  then have "i < k" by simp
  then show "take k (drop m xs) ! i = map (\<lambda>j. xs ! j) [m..<m + k] ! i"
    using assms by simp
qed

lemma window_in_range:
  assumes "i < length rows div k"
  shows "i * k + k \<le> length rows"
proof -
  have "Suc i \<le> length rows div k" using assms by simp
  then have "Suc i * k \<le> length rows div k * k" by (rule mult_le_mono1)
  also have "\<dots> \<le> length rows" by simp
  finally show ?thesis by (simp add: add.commute)
qed

lemma block_mean_spec:
  "block_mean tm whole b =
     \<lparr>time = tm whole (map time b), hour_of_day = spec_average (map hour_of_day b),
      altitude = spec_average (map altitude b), pitch = spec_average (map pitch b),
      roll = spec_average (map roll b), t_kt19 = spec_average (map t_kt19 b),
      latitude = spec_average (map latitude b), longitude = spec_average (map longitude b)\<rparr>"
  by (simp add: block_mean_def nanmean_spec_average)

lemma block_means_spec:
  "map (block_mean tm (map time (take (length rows div k * k) rows))) (blocks k rows) =
   spec_block_average tm k rows"
proof -
  have "take k (drop (i * k) rows) = spec_window_rows k rows i" if "i < length rows div k" for i
    using window_in_range [OF that] by (simp add: take_drop_nth spec_window_rows_def)
  then show ?thesis
    by (simp add: blocks_nth spec_block_average_def block_mean_spec Let_def)
qed

lemma filter_timerange_spec:
  "sorted (map time rows) \<Longrightarrow> filter_timerange rows tr = spec_window rows tr"
  by (cases "(rows, tr)" rule: filter_timerange.cases)
    (simp_all add: spec_window_def sel_time_sorted)

lemma sorted_sel_day: "sorted (map time ds) \<Longrightarrow> sorted (map time (sel_day ds d))"
  by (simp add: sel_day_sorted sorted_filter)

text \<open>
  C8, as the code has it. On a navigation dataset with a sorted time coordinate, and for
  a coarsening factor that is at most 1 or at most the number of the day's records,
  \<^verbatim>\<open>_ds_for_view\<close> returns what the specification's slicer computes, in its order: the
  records of the day; then, only for a factor above 1, the averages of the consecutive
  full windows of that many records, the remainder being dropped; then the records of that
  result inside the time window. That result is the only one it returns.
\<close>

theorem ds_for_view_refines_spec:
  assumes "sorted (map time ds)" and "monotone_mean tm"
    and "k \<le> 1 \<or> nat k \<le> length (spec_day_records ds d)"
  shows "ds_for_view tm ds d k tr = Inr (spec_view_slicer tm ds d k tr) \<and>
         (\<exists>!rows. ds_for_view tm ds d k tr = Inr rows)"
proof -
  have day: "sel_day ds d = spec_day_records ds d"
    using assms(1) by (simp add: sel_day_sorted spec_day_records_def)
  have srt: "sorted (map time (sel_day ds d))" using assms(1) by (rule sorted_sel_day)
  have "ds_for_view tm ds d k tr = Inr (spec_view_slicer tm ds d k tr)"
  proof (cases "k \<le> 1")
    case True
    then have "prep_day tm ds d k = Inr (spec_day_records ds d)"
      by (simp add: prep_day_no_coarsen day)
    with True srt show ?thesis
      by (simp add: ds_for_view_def spec_view_slicer_def filter_timerange_spec day)
  next
    case False
    with assms(3) have k: "1 < k" "nat k \<le> length (sel_day ds d)" by (simp_all add: day)
    have p: "prep_day tm ds d k = Inr (spec_block_average tm (nat k) (spec_day_records ds d))"
      using prep_day_full [OF k] by (simp add: block_means_spec day)
    have "sorted (map time (spec_block_average tm (nat k) (sel_day ds d)))"
      using sorted_block_means [OF assms(2) srt] by (simp only: block_means_spec [symmetric])
    then have "sorted (map time (spec_block_average tm (nat k) (spec_day_records ds d)))"
      by (simp add: day)
    with p k show ?thesis
      by (simp add: ds_for_view_def spec_view_slicer_def filter_timerange_spec)
  qed
  then show ?thesis by auto
qed

lemma ex_day_records: "spec_day_records ex_DS 0 = take 3 ex_DS"
  by (simp add: spec_day_records_def ex_DS_def ex_raw_nav_def with_hour_of_day_def day_of_def
      NS_PER_DAY_def NS_PER_SECOND_def)

lemma ex_spec_slicer:
  "spec_view_slicer time_mean ex_DS 0 2 (Some (Some 36000000000000, Some 36002000000000)) =
     [\<lparr>time = 36000500000000, hour_of_day = Some (72001 / 7200), altitude = Some 105,
       pitch = Some (3 / 2), roll = Some 0, t_kt19 = Some 261, latitude = Some 80,
       longitude = Some (21 / 2)\<rparr>]"
proof -
  have l: "length (take 3 ex_DS) = 3" by (simp add: ex_DS_def ex_raw_nav_def)
  have w: "spec_window_rows 2 (take 3 ex_DS) 0 = take 2 ex_DS"
    by (simp add: spec_window_rows_def ex_DS_def ex_raw_nav_def upt_rec [of 0] upt_rec [of 1])
  have "spec_block_average time_mean 2 (take 3 ex_DS) =
     [\<lparr>time = 36000500000000, hour_of_day = Some (72001 / 7200), altitude = Some 105,
       pitch = Some (3 / 2), roll = Some 0, t_kt19 = Some 261, latitude = Some 80,
       longitude = Some (21 / 2)\<rparr>]"
    unfolding spec_block_average_def l
    by (simp add: w Let_def)
      (simp add: ex_DS_def ex_raw_nav_def with_hour_of_day_def time_mean_def
        nanmean_spec_average [symmetric] nanmean_def present_def hod_def NS_PER_SECOND_def)
  then show ?thesis
    by (simp add: spec_view_slicer_def ex_day_records spec_window_def)
qed

text \<open>
  The first day of the example dataset coarsened by 2 and filtered to the whole day: one
  record, the mean of the first two, the third one trimmed.
\<close>

theorem ds_for_view_refines_spec_witness:
  "sorted (map time ex_DS) \<and> monotone_mean time_mean \<and>
   (2 \<le> (1::int) \<or> nat 2 \<le> length (spec_day_records ex_DS 0)) \<and>
   ds_for_view time_mean ex_DS 0 2 (Some (Some 36000000000000, Some 36002000000000)) =
     Inr [\<lparr>time = 36000500000000, hour_of_day = Some (72001 / 7200), altitude = Some 105,
           pitch = Some (3 / 2), roll = Some 0, t_kt19 = Some 261, latitude = Some 80,
           longitude = Some (21 / 2)\<rparr>]"
proof -
  have n: "(2::int) \<le> 1 \<or> nat 2 \<le> length (spec_day_records ex_DS 0)"
    unfolding ex_day_records by (simp add: ex_DS_def ex_raw_nav_def)
  from ds_for_view_refines_spec [OF sorted_ex_DS monotone_time_mean n,
      of "Some (Some 36000000000000, Some 36002000000000)"]
    sorted_ex_DS monotone_time_mean n ex_spec_slicer
  show ?thesis by simp
qed

text \<open>
  C8 as stated fails when the factor is above the number of the day's records: the
  specification's slicer trims every record and has the empty slice as its result, the
  code raises.
\<close>

theorem ds_for_view_raises_above_row_count:
  "ds_for_view time_mean ex_DS 0 20 None = Inl ValueError_EmptyReduction \<and>
   spec_view_slicer time_mean ex_DS 0 20 None = []"
proof -
  have "ds_for_view time_mean ex_DS 0 20 None = Inl ValueError_EmptyReduction"
    by (simp add: ds_for_view_def prep_day_short length_sel_day_ex_DS_0)
  moreover have "length (take 3 ex_DS) = 3" by (simp add: ex_DS_def ex_raw_nav_def)
  then have "spec_view_slicer time_mean ex_DS 0 20 None = []"
    by (simp add: spec_view_slicer_def ex_day_records spec_window_def spec_block_average_def)
  ultimately show ?thesis by simp
qed

end
